theory Spec2Isabelle
  imports Complex_Main "HOL-Library.AList"
begin


section \<open>The agent run loop of \<open>src/agents/index.ts\<close>\<close>

text \<open>
  The development embeds \<open>createAgent(...).run\<close>, \<open>createAgent(...).with\<close>,
  \<open>mergeTools\<close>, \<open>withToolCallHints\<close>, \<open>maybeExecuteTool\<close>, \<open>parseToolCall\<close> and
  \<open>tryParseObject\<close>.

  Conventions of the embedding.
  \<^item> A JavaScript value is a \<open>jsvalue\<close>; \<open>undefined\<close> is \<open>JUndefined\<close>.  An object lists
    its own properties, each key once, in the order of insertion.  The payload of a
    number inside a \<open>jsvalue\<close> is never inspected by the code apart from its truthiness.
  \<^item> \<open>maxToolPasses\<close> and \<open>temperature\<close> are finite numbers, taken exactly, as rationals;
    \<open>maxToolPasses\<close> need not be an integer.  \<open>NaN\<close> and the infinities, which a caller
    can pass as well, are left out: with \<open>NaN\<close> the loop body never runs, with
    \<open>Infinity\<close> the loop has no bound.
  \<^item> A JavaScript string is a \<open>string\<close>.
  \<^item> \<open>JSON.parse\<close> and \<open>JSON.stringify\<close> belong to the language runtime, not to the
    repository.  They are the two fields of a \<open>platform\<close> that every function receives;
    a \<open>SyntaxError\<close> of \<open>JSON.parse\<close> is the value \<open>None\<close>, and \<open>JSON.stringify\<close> gives
    a text or \<open>undefined\<close> (\<open>None\<close>), as it does on \<open>undefined\<close>.  On the values of
    \<open>jsvalue\<close>, which have no cycles and no \<open>BigInt\<close>, it does not throw.  All theorems
    hold for every platform.
  \<^item> The provider, the tools, the guards, the handoff callback and the schema are
    caller-supplied effectful functions.  Each takes the state \<open>'w\<close> of the outside world
    and returns the new one together with either a thrown \<open>error\<close> (\<open>Inl\<close>) or its
    result (\<open>Inr\<close>); \<open>await\<close> is sequencing.
  \<^item> The observer \<open>onTrace\<close> returns nothing; it is taken to return normally.  It has
    a state \<open>'o\<close> of its own, and it is handed live objects: the array of messages that
    goes to the provider next, the configuration, the arguments and the result of a
    tool.  \<open>run\<close> below is the run with an observer that leaves these objects as they
    are.  \<open>run_live\<close>, further down, is the run with an observer that may change them;
    the two agree for an observer that changes nothing (\<open>run_live_untouched\<close>).
  \<^item> The run records every call it makes to a caller-supplied function in \<open>calls\<close>, in
    order.  The record is instrumentation: no function of the model reads it.
\<close>

subsection \<open>Values\<close>

datatype jsvalue =
    JUndefined
  | JNull
  | JBool bool
  | JNumber int
  | JString string
  | JArray "jsvalue list"
  | JObject "(string \<times> jsvalue) list"

datatype error = Thrown string

record platform =
  json_parse :: "string \<Rightarrow> jsvalue option"
  json_stringify :: "jsvalue \<Rightarrow> string option"

text \<open>Truthiness, as \<open>x && ...\<close> and \<open>x ? ... : ...\<close> test it.\<close>

fun truthy :: "jsvalue \<Rightarrow> bool" where
  "truthy JUndefined = False"
| "truthy JNull = False"
| "truthy (JBool b) = b"
| "truthy (JNumber n) = (n \<noteq> 0)"
| "truthy (JString s) = (s \<noteq> [])"
| "truthy (JArray _) = True"
| "truthy (JObject _) = True"

text \<open>\<open>typeof x === 'object'\<close>: true of \<open>null\<close>, of arrays and of objects.\<close>

fun typeof_object :: "jsvalue \<Rightarrow> bool" where
  "typeof_object JNull = True"
| "typeof_object (JArray _) = True"
| "typeof_object (JObject _) = True"
| "typeof_object _ = False"

text \<open>
  \<open>k in x\<close>, for the three keys the code asks for (\<open>handoff\<close>, \<open>tool\<close>, \<open>args\<close>): none
  of them is an array index, \<open>length\<close>, or a property inherited from a prototype, so the
  operator holds exactly of an object that has the key itself.  The code applies it
  to truthy values of type \<open>'object'\<close> only.
\<close>

fun in_op :: "string \<Rightarrow> jsvalue \<Rightarrow> bool" where
  "in_op k (JObject kvs) = (k \<in> set (map fst kvs))"
| "in_op k _ = False"

text \<open>Property read \<open>x.k\<close>; an absent property reads as \<open>undefined\<close>.\<close>

fun get_prop :: "jsvalue \<Rightarrow> string \<Rightarrow> jsvalue" where
  "get_prop (JObject kvs) k = (case map_of kvs k of Some v \<Rightarrow> v | None \<Rightarrow> JUndefined)"
| "get_prop _ k = JUndefined"

subsection \<open>Strings\<close>

text \<open>\<open>text.indexOf(c)\<close> and \<open>text.lastIndexOf(c)\<close> for a one-character \<open>c\<close>; \<open>-1\<close> when absent.\<close>

fun indexOf :: "string \<Rightarrow> char \<Rightarrow> int" where
  "indexOf [] c = -1"
| "indexOf (x # xs) c =
     (if x = c then 0 else (let r = indexOf xs c in if r = -1 then -1 else r + 1))"

fun lastIndexOf :: "string \<Rightarrow> char \<Rightarrow> int" where
  "lastIndexOf [] c = -1"
| "lastIndexOf (x # xs) c =
     (let r = lastIndexOf xs c in
      if r \<noteq> -1 then r + 1 else if x = c then 0 else -1)"

text \<open>\<open>text.slice(a, b)\<close>: a negative index counts from the end, both are clamped.\<close>

definition slice :: "string \<Rightarrow> int \<Rightarrow> int \<Rightarrow> string" where
  "slice text a b =
     (let n = int (length text);
          lo = (if a < 0 then max (n + a) 0 else min a n);
          hi = (if b < 0 then max (n + b) 0 else min b n)
      in take (nat (hi - lo)) (drop (nat lo) text))"

subsection \<open>Messages, tools, configuration\<close>

datatype role = User | Assistant | System | Tool

text \<open>
  A message.  \<open>content\<close> is declared a string; the loop itself stores \<open>undefined\<close> there
  when \<open>JSON.stringify\<close> gives \<open>undefined\<close> for the result of a tool, so it is a
  \<open>string option\<close>, and \<open>None\<close> is \<open>undefined\<close>.
\<close>

record message =
  role :: role
  content :: "string option"
  msg_name :: "string option"

text \<open>
  A tool.  The field \<open>schema\<close> of the source is never read by the code and is left out.
  \<open>execute args context\<close> acts on the world.
\<close>

record 'w tool_definition =
  name :: string
  description :: "string option"
  execute :: "jsvalue \<Rightarrow> jsvalue \<Rightarrow> 'w \<Rightarrow> (error + jsvalue) \<times> 'w"

record run_result =
  result_content :: string
  structured :: jsvalue

text \<open>
  The trace events.  \<open>agent:start\<close> carries the agent's configuration.  The
  configuration holds the observer, which consumes trace events, so the event holds
  a \<open>config_view\<close>: every field of the configuration but \<open>onTrace\<close>.  The field \<open>tokens\<close>
  of \<open>agent:stop\<close> is never set.
\<close>

record 'w config_view =
  view_name :: "string option"
  view_instructions :: "string option"
  view_model :: "string option"
  view_temperature :: "rat option"
  view_tools :: "'w tool_definition list option"
  view_inputGuard :: "(message list \<Rightarrow> 'w \<Rightarrow> (error + message list) \<times> 'w) option"
  view_outputGuard :: "(string \<Rightarrow> 'w \<Rightarrow> (error + string) \<times> 'w) option"
  view_handoff ::
    "(jsvalue \<Rightarrow> message list \<Rightarrow> jsvalue \<Rightarrow> 'w \<Rightarrow> (error + run_result) \<times> 'w) option"

datatype 'w trace_event =
    AgentStart "string option" "'w config_view"
  | AgentStop "string option"
  | LlmRequest string "message list"
  | LlmResponse string
  | ToolStart string jsvalue
  | ToolStop string jsvalue
  | HandoffEvent "string option" jsvalue jsvalue

record ('w, 'o) agent_config =
  agent_name :: "string option"
  instructions :: "string option"
  model :: "string option"
  temperature :: "rat option"
  tools :: "'w tool_definition list option"
  inputGuard :: "(message list \<Rightarrow> 'w \<Rightarrow> (error + message list) \<times> 'w) option"
  outputGuard :: "(string \<Rightarrow> 'w \<Rightarrow> (error + string) \<times> 'w) option"
  onTrace :: "('w trace_event \<Rightarrow> 'o \<Rightarrow> 'o) option"
  handoff ::
    "(jsvalue \<Rightarrow> message list \<Rightarrow> jsvalue \<Rightarrow> 'w \<Rightarrow> (error + run_result) \<times> 'w) option"

text \<open>
  The arguments of \<open>client.chat\<close>.  \<open>signal\<close> and \<open>onDelta\<close> are handed to the provider
  as they came and are part of its world.
\<close>

record chat_args =
  chat_model :: string
  chat_messages :: "message list"
  chat_temperature :: rat

record 'w openai_client =
  chat :: "chat_args \<Rightarrow> 'w \<Rightarrow> (error + string) \<times> 'w"

record 'w run_input =
  messages :: "message list"
  expect :: "(jsvalue \<Rightarrow> 'w \<Rightarrow> (error + jsvalue) \<times> 'w) option"
  run_context :: "jsvalue option"
  maxToolPasses :: "rat option"

subsection \<open>The state of a run\<close>

datatype call =
    ChatCall chat_args
  | ToolCall string jsvalue jsvalue
  | HandoffCall jsvalue "message list" jsvalue
  | InputGuardCall "message list"
  | OutputGuardCall string
  | ExpectCall jsvalue

record ('w, 'o) run_state =
  world :: 'w
  observer :: 'o
  calls :: "call list"

text \<open>\<open>onTrace?.(event)\<close>, for an observer that leaves the objects of the event as they are.\<close>

definition view_of :: "('w, 'o) agent_config \<Rightarrow> 'w config_view" where
  "view_of cfg =
     \<lparr>view_name = agent_name cfg, view_instructions = instructions cfg,
      view_model = model cfg, view_temperature = temperature cfg, view_tools = tools cfg,
      view_inputGuard = inputGuard cfg, view_outputGuard = outputGuard cfg,
      view_handoff = handoff cfg\<rparr>"

definition emit ::
  "('w trace_event \<Rightarrow> 'o \<Rightarrow> 'o) option \<Rightarrow> 'w trace_event \<Rightarrow> ('w, 'o) run_state
     \<Rightarrow> ('w, 'o) run_state"
where
  "emit tr ev st =
     (case tr of None \<Rightarrow> st | Some f \<Rightarrow> st\<lparr>observer := f ev (observer st)\<rparr>)"

text \<open>A call of a caller-supplied function: it acts on the world, and is recorded.\<close>

definition invoke ::
  "call \<Rightarrow> ('w \<Rightarrow> (error + 'a) \<times> 'w) \<Rightarrow> ('w, 'o) run_state \<Rightarrow> (error + 'a) \<times> ('w, 'o) run_state"
where
  "invoke c f st =
     (case f (world st) of (r, w') \<Rightarrow> (r, st\<lparr>world := w', calls := calls st @ [c]\<rparr>))"

subsection \<open>Directive extraction\<close>

definition tryParseObject :: "platform \<Rightarrow> string \<Rightarrow> jsvalue" where
  "tryParseObject P text =
     (case json_parse P text of
        Some v \<Rightarrow> v
      | None \<Rightarrow>
          (let start = indexOf text CHR ''{'';
               stop = lastIndexOf text CHR ''}''
           in if start \<noteq> -1 \<and> stop \<noteq> -1 \<and> stop > start
              then (case json_parse P (slice text start (stop + 1)) of
                      Some v \<Rightarrow> v
                    | None \<Rightarrow> JUndefined)
              else JUndefined))"

text \<open>
  \<open>parseToolCall\<close> returns the parsed object itself, or \<open>null\<close>; here \<open>None\<close> is \<open>null\<close>.
  Its \<open>catch\<close> is dead code: nothing in the \<open>try\<close> block throws.
\<close>

definition parseToolCall :: "platform \<Rightarrow> string \<Rightarrow> jsvalue option" where
  "parseToolCall P text =
     (let obj = tryParseObject P text
      in if truthy obj \<and> typeof_object obj \<and> in_op ''tool'' obj \<and> in_op ''args'' obj
         then Some obj else None)"

subsection \<open>Tools\<close>

text \<open>
  \<open>mergeTools\<close>.  The \<open>Map\<close> of the source keeps its keys in the order of their first
  insertion, and \<open>set\<close> on a key it has replaces the value in place: this is
  \<open>AList.update\<close>.  An empty array is truthy, so only two absent lists give \<open>undefined\<close>.
\<close>

definition or_empty :: "'a list option \<Rightarrow> 'a list" where
  "or_empty a = (case a of None \<Rightarrow> [] | Some xs \<Rightarrow> xs)"

definition set_all ::
  "'w tool_definition list \<Rightarrow> (string \<times> 'w tool_definition) list \<Rightarrow> (string \<times> 'w tool_definition) list"
where
  "set_all ts byName = fold (\<lambda>t m. AList.update (name t) t m) ts byName"

definition mergeTools ::
  "'w tool_definition list option \<Rightarrow> 'w tool_definition list option \<Rightarrow> 'w tool_definition list option"
where
  "mergeTools a b =
     (if a = None \<and> b = None then None
      else Some (map snd (set_all (or_empty b) (set_all (or_empty a) []))))"

text \<open>\<open>lines.join(sep)\<close>\<close>

fun join :: "string \<Rightarrow> string list \<Rightarrow> string" where
  "join sep [] = []"
| "join sep [x] = x"
| "join sep (x # y # ys) = x @ sep @ join sep (y # ys)"

definition tool_line :: "'w tool_definition \<Rightarrow> string" where
  "tool_line t =
     ''- '' @ name t @ '': '' @ (case description t of None \<Rightarrow> [] | Some d \<Rightarrow> d)"

definition hint_message :: "'w tool_definition list \<Rightarrow> message" where
  \<open>hint_message ts =
     \<lparr>role = System,
      content = Some
       (''You may call tools by responding with JSON {"tool":"NAME","args":OBJECT}. Tools:\<newline>''
        @ join ''\<newline>'' (map tool_line ts)),
      msg_name = None\<rparr>\<close>

definition withToolCallHints ::
  "message list \<Rightarrow> 'w tool_definition list option \<Rightarrow> message list"
where
  "withToolCallHints msgs tls =
     (case tls of
        None \<Rightarrow> msgs
      | Some ts \<Rightarrow> if length ts = 0 then msgs else hint_message ts # msgs)"

text \<open>
  \<open>maybeExecuteTool\<close>.  \<open>tools.find\<close> is \<open>find\<close>: the first tool whose name is strictly
  equal to the \<open>tool\<close> property, that is, the property is this very string.  A result
  that is a string is returned as it is, any other goes through \<open>JSON.stringify\<close>, so
  that what is returned is a string or \<open>undefined\<close>, although the declared type is a
  string.  When nothing is dispatched the content comes back, \<open>Some text\<close>.
\<close>

definition result_text :: "platform \<Rightarrow> jsvalue \<Rightarrow> string option" where
  "result_text P r = (case r of JString s \<Rightarrow> Some s | _ \<Rightarrow> json_stringify P r)"

definition maybeExecuteTool ::
  "platform \<Rightarrow> string \<Rightarrow> 'w tool_definition list option \<Rightarrow> jsvalue
     \<Rightarrow> ('w trace_event \<Rightarrow> 'o \<Rightarrow> 'o) option \<Rightarrow> ('w, 'o) run_state
     \<Rightarrow> (error + string option) \<times> ('w, 'o) run_state"
where
  "maybeExecuteTool P text tls ctx tr st =
     (case tls of
        None \<Rightarrow> (Inr (Some text), st)
      | Some ts \<Rightarrow>
          if length ts = 0 then (Inr (Some text), st)
          else
            (case parseToolCall P text of
               None \<Rightarrow> (Inr (Some text), st)
             | Some toolCall \<Rightarrow>
                 (case find (\<lambda>t. JString (name t) = get_prop toolCall ''tool'') ts of
                    None \<Rightarrow> (Inr (Some text), st)
                  | Some found \<Rightarrow>
                      (let args = get_prop toolCall ''args'';
                           st1 = emit tr (ToolStart (name found) args) st
                       in case invoke (ToolCall (name found) args ctx)
                                 (execute found args ctx) st1 of
                            (Inl e, st2) \<Rightarrow> (Inl e, st2)
                          | (Inr r, st2) \<Rightarrow>
                              (Inr (result_text P r),
                               emit tr (ToolStop (name found) r) st2)))))"

subsection \<open>One turn of the loop\<close>

text \<open>
  The body of the \<open>for\<close> loop ends in one of four ways: an exception leaves \<open>run\<close>, the
  handoff \<open>return\<close>s from \<open>run\<close>, a \<open>break\<close>, or a \<open>continue\<close> with the new history.
  \<open>Break\<close> and \<open>Continue\<close> carry \<open>lastContent\<close>.
\<close>

datatype turn_end =
    Throw error
  | Return run_result
  | Break string
  | Continue "message list" string

definition chat_request :: "('w, 'o) agent_config \<Rightarrow> message list \<Rightarrow> chat_args" where
  "chat_request cfg hinted =
     \<lparr>chat_model = (case model cfg of None \<Rightarrow> ''gpt-4o-mini'' | Some m \<Rightarrow> m),
      chat_messages = hinted,
      chat_temperature = (case temperature cfg of None \<Rightarrow> 2 / 10 | Some t \<Rightarrow> t)\<rparr>"

definition is_handoff :: "jsvalue \<Rightarrow> bool" where
  "is_handoff handoffObj =
     (truthy handoffObj \<and> typeof_object handoffObj \<and> in_op ''handoff'' handoffObj)"

definition turn ::
  "platform \<Rightarrow> 'w openai_client \<Rightarrow> ('w, 'o) agent_config \<Rightarrow> jsvalue \<Rightarrow> message list
     \<Rightarrow> ('w, 'o) run_state \<Rightarrow> turn_end \<times> ('w, 'o) run_state"
where
  "turn P client cfg ctx history st =
     (let hinted = withToolCallHints history (tools cfg);
          req = chat_request cfg hinted;
          st1 = emit (onTrace cfg) (LlmRequest (chat_model req) hinted) st
      in case invoke (ChatCall req) (chat client req) st1 of
           (Inl e, st2) \<Rightarrow> (Throw e, st2)
         | (Inr lastContent, st2) \<Rightarrow>
             (let st3 = emit (onTrace cfg) (LlmResponse lastContent) st2;
                  handoffObj = tryParseObject P lastContent
              in if is_handoff handoffObj then
                   (let target = get_prop handoffObj ''handoff'';
                        st4 = emit (onTrace cfg)
                                (HandoffEvent (agent_name cfg) target (get_prop handoffObj ''reason''))
                                st3
                    in case handoff cfg of
                         Some h \<Rightarrow>
                           (case invoke (HandoffCall target history ctx) (h target history ctx) st4 of
                              (Inl e, st5) \<Rightarrow> (Throw e, st5)
                            | (Inr r, st5) \<Rightarrow>
                                (Return \<lparr>result_content = result_content r,
                                         structured = structured r\<rparr>,
                                 emit (onTrace cfg) (AgentStop (agent_name cfg)) st5))
                       | None \<Rightarrow> (Break lastContent, st4))
                 else
                   (case maybeExecuteTool P lastContent (tools cfg) ctx (onTrace cfg) st3 of
                      (Inl e, st4) \<Rightarrow> (Throw e, st4)
                    | (Inr toolResult, st4) \<Rightarrow>
                        if toolResult \<noteq> Some lastContent then
                          (Continue
                             (history @
                                [\<lparr>role = Assistant, content = Some lastContent, msg_name = None\<rparr>,
                                 \<lparr>role = Tool, content = toolResult, msg_name = None\<rparr>])
                             lastContent,
                           st4)
                        else (Break lastContent, st4))))"

subsection \<open>The loop and the run\<close>

datatype loop_end =
    Threw error
  | Returned run_result
  | Finished string

function run_loop ::
  "platform \<Rightarrow> 'w openai_client \<Rightarrow> ('w, 'o) agent_config \<Rightarrow> jsvalue \<Rightarrow> int \<Rightarrow> rat
     \<Rightarrow> message list \<Rightarrow> string \<Rightarrow> ('w, 'o) run_state \<Rightarrow> loop_end \<times> ('w, 'o) run_state"
where
  "run_loop P client cfg ctx i bound history lastContent st =
     (if of_int i < bound then
        (case turn P client cfg ctx history st of
           (Throw e, st') \<Rightarrow> (Threw e, st')
         | (Return r, st') \<Rightarrow> (Returned r, st')
         | (Break c, st') \<Rightarrow> (Finished c, st')
         | (Continue h c, st') \<Rightarrow> run_loop P client cfg ctx (i + 1) bound h c st')
      else (Finished lastContent, st))"
  by pat_completeness auto
termination
  by (relation "measure (\<lambda>(P, client, cfg, ctx, i, bound, history, lastContent, st).
                   nat (\<lceil>bound\<rceil> - i))")
     (auto simp: less_ceiling_iff[symmetric])

text \<open>What follows the loop: the output guard, the schema, \<open>agent:stop\<close>.\<close>

definition finalize ::
  "platform \<Rightarrow> ('w, 'o) agent_config \<Rightarrow> 'w run_input \<Rightarrow> string \<Rightarrow> ('w, 'o) run_state
     \<Rightarrow> (error + run_result) \<times> ('w, 'o) run_state"
where
  "finalize P cfg inp lastContent st =
     (case (case outputGuard cfg of
              None \<Rightarrow> (Inr lastContent, st)
            | Some g \<Rightarrow> invoke (OutputGuardCall lastContent) (g lastContent) st) of
        (Inl e, st1) \<Rightarrow> (Inl e, st1)
      | (Inr text, st1) \<Rightarrow>
          (case (case expect inp of
                   None \<Rightarrow> (Inr JUndefined, st1)
                 | Some parse \<Rightarrow>
                     invoke (ExpectCall (tryParseObject P text))
                       (parse (tryParseObject P text)) st1) of
             (Inl e, st2) \<Rightarrow> (Inl e, st2)
           | (Inr s, st2) \<Rightarrow>
               (Inr \<lparr>result_content = text, structured = s\<rparr>,
                emit (onTrace cfg) (AgentStop (agent_name cfg)) st2)))"

text \<open>The loop from turn \<open>i\<close> on, and what follows it.\<close>

definition run_from ::
  "platform \<Rightarrow> 'w openai_client \<Rightarrow> ('w, 'o) agent_config \<Rightarrow> 'w run_input \<Rightarrow> jsvalue
     \<Rightarrow> int \<Rightarrow> rat \<Rightarrow> message list \<Rightarrow> string \<Rightarrow> ('w, 'o) run_state
     \<Rightarrow> (error + run_result) \<times> ('w, 'o) run_state"
where
  "run_from P client cfg inp ctx i bound history lastContent st =
     (case run_loop P client cfg ctx i bound history lastContent st of
        (Threw e, st') \<Rightarrow> (Inl e, st')
      | (Returned r, st') \<Rightarrow> (Inr r, st')
      | (Finished c, st') \<Rightarrow> finalize P cfg inp c st')"

definition system_messages :: "('w, 'o) agent_config \<Rightarrow> message list" where
  "system_messages cfg =
     (case instructions cfg of
        None \<Rightarrow> []
      | Some s \<Rightarrow>
          if s \<noteq> [] then [\<lparr>role = System, content = Some s, msg_name = None\<rparr>] else [])"

text \<open>\<open>Math.max(1, maxToolPasses + 1)\<close>, with \<open>maxToolPasses = 3\<close> when it is omitted.\<close>

definition pass_bound :: "'w run_input \<Rightarrow> rat" where
  "pass_bound inp = max 1 ((case maxToolPasses inp of None \<Rightarrow> 3 | Some k \<Rightarrow> k) + 1)"

definition guard_input ::
  "('w, 'o) agent_config \<Rightarrow> message list \<Rightarrow> ('w, 'o) run_state
     \<Rightarrow> (error + message list) \<times> ('w, 'o) run_state"
where
  "guard_input cfg msgs st =
     (case inputGuard cfg of
        None \<Rightarrow> (Inr msgs, st)
      | Some g \<Rightarrow> invoke (InputGuardCall msgs) (g msgs) st)"

definition run ::
  "platform \<Rightarrow> 'w openai_client \<Rightarrow> ('w, 'o) agent_config \<Rightarrow> 'w run_input
     \<Rightarrow> ('w, 'o) run_state \<Rightarrow> (error + run_result) \<times> ('w, 'o) run_state"
where
  "run P client baseConfig inp st =
     (let ctx = (case run_context inp of None \<Rightarrow> JObject [] | Some c \<Rightarrow> c)
      in case guard_input baseConfig (messages inp) st of
           (Inl e, st1) \<Rightarrow> (Inl e, st1)
         | (Inr guardedInput, st1) \<Rightarrow>
             (let history = system_messages baseConfig @ guardedInput;
                  st2 = emit (onTrace baseConfig)
                          (AgentStart (agent_name baseConfig) (view_of baseConfig)) st1
              in run_from P client baseConfig inp ctx 0 (pass_bound inp) history [] st2))"

text \<open>
  \<open>agent.with(extension)\<close>.  The extension is a \<open>Partial<AgentConfig>\<close>: each property
  is absent (\<open>None\<close>) or present, and a present property may hold \<open>undefined\<close>
  (\<open>Some None\<close>).  The spread \<open>{...baseConfig, ...extension}\<close> takes every property the
  extension has, \<open>undefined\<close> included; \<open>extension.tools\<close> reads \<open>undefined\<close> when the
  property is absent, and \<open>tools\<close> is merged by name.
\<close>

record ('w, 'o) config_extension =
  ext_name :: "string option option"
  ext_instructions :: "string option option"
  ext_model :: "string option option"
  ext_temperature :: "rat option option"
  ext_tools :: "'w tool_definition list option option"
  ext_inputGuard :: "(message list \<Rightarrow> 'w \<Rightarrow> (error + message list) \<times> 'w) option option"
  ext_outputGuard :: "(string \<Rightarrow> 'w \<Rightarrow> (error + string) \<times> 'w) option option"
  ext_onTrace :: "('w trace_event \<Rightarrow> 'o \<Rightarrow> 'o) option option"
  ext_handoff ::
    "(jsvalue \<Rightarrow> message list \<Rightarrow> jsvalue \<Rightarrow> 'w \<Rightarrow> (error + run_result) \<times> 'w) option option"

definition over :: "'a option \<Rightarrow> 'a option option \<Rightarrow> 'a option" where
  "over base ext = (case ext of None \<Rightarrow> base | Some v \<Rightarrow> v)"

definition read_property :: "'a option option \<Rightarrow> 'a option" where
  "read_property ext = (case ext of None \<Rightarrow> None | Some v \<Rightarrow> v)"

definition agent_with ::
  "('w, 'o) agent_config \<Rightarrow> ('w, 'o) config_extension \<Rightarrow> ('w, 'o) agent_config"
where
  "agent_with baseConfig extension =
     \<lparr>agent_name = over (agent_name baseConfig) (ext_name extension),
      instructions = over (instructions baseConfig) (ext_instructions extension),
      model = over (model baseConfig) (ext_model extension),
      temperature = over (temperature baseConfig) (ext_temperature extension),
      tools = mergeTools (tools baseConfig) (read_property (ext_tools extension)),
      inputGuard = over (inputGuard baseConfig) (ext_inputGuard extension),
      outputGuard = over (outputGuard baseConfig) (ext_outputGuard extension),
      onTrace = over (onTrace baseConfig) (ext_onTrace extension),
      handoff = over (handoff baseConfig) (ext_handoff extension)\<rparr>"

subsection \<open>The run with an observer that changes what it is handed\<close>













subsection \<open>Notions used to state the properties\<close>

text \<open>What the observer has seen after the events \<open>evs\<close>, starting from \<open>ob\<close>.\<close>

definition observe :: "('w trace_event \<Rightarrow> 'o \<Rightarrow> 'o) option \<Rightarrow> 'w trace_event list \<Rightarrow> 'o \<Rightarrow> 'o" where
  "observe tr evs ob = (case tr of None \<Rightarrow> ob | Some f \<Rightarrow> fold f evs ob)"

fun is_chat :: "call \<Rightarrow> bool" where
  "is_chat (ChatCall _) = True"
| "is_chat _ = False"


text \<open>The message lists of the provider calls among \<open>cs\<close>, in order.\<close>

fun chat_histories :: "call list \<Rightarrow> message list list" where
  "chat_histories [] = []"
| "chat_histories (ChatCall req # cs) = chat_messages req # chat_histories cs"
| "chat_histories (_ # cs) = chat_histories cs"

text \<open>
  The tool a response is dispatched to, with the arguments it is given: what
  \<open>maybeExecuteTool\<close> looks up before it calls \<open>execute\<close>.
\<close>

definition dispatch_target ::
  "platform \<Rightarrow> 'w tool_definition list option \<Rightarrow> string \<Rightarrow> ('w tool_definition \<times> jsvalue) option"
where
  "dispatch_target P tls text =
     (case tls of
        None \<Rightarrow> None
      | Some ts \<Rightarrow>
          (case parseToolCall P text of
             None \<Rightarrow> None
           | Some toolCall \<Rightarrow>
               (case find (\<lambda>t. JString (name t) = get_prop toolCall ''tool'') ts of
                  None \<Rightarrow> None
                | Some found \<Rightarrow> Some (found, get_prop toolCall ''args''))))"

text \<open>The request of a turn that starts with \<open>history\<close>.\<close>

definition next_request :: "('w, 'o) agent_config \<Rightarrow> message list \<Rightarrow> chat_args" where
  "next_request cfg history = chat_request cfg (withToolCallHints history (tools cfg))"

text \<open>The state once the provider has answered \<open>text\<close> and left the world \<open>w1\<close>.\<close>

definition after_chat ::
  "('w, 'o) agent_config \<Rightarrow> message list \<Rightarrow> string \<Rightarrow> 'w \<Rightarrow> ('w, 'o) run_state \<Rightarrow> ('w, 'o) run_state"
where
  "after_chat cfg history text w1 st =
     st\<lparr>world := w1,
      observer := observe (onTrace cfg)
         [LlmRequest (chat_model (next_request cfg history)) (chat_messages (next_request cfg history)),
          LlmResponse text]
         (observer st),
      calls := calls st @ [ChatCall (next_request cfg history)]\<rparr>"


text \<open>The context of a run: \<open>context = {}\<close> when the caller gives none.\<close>

definition context_of :: "'w run_input \<Rightarrow> jsvalue" where
  "context_of inp = (case run_context inp of None \<Rightarrow> JObject [] | Some c \<Rightarrow> c)"

text \<open>
  An association list whose every key is the name of the tool stored under it, and the
  last tool of a list that has a given name.
\<close>

definition keyed :: "(string \<times> 'w tool_definition) list \<Rightarrow> bool" where
  "keyed m = list_all (\<lambda>(k, t). k = name t) m"

definition last_named :: "string \<Rightarrow> 'w tool_definition list \<Rightarrow> 'w tool_definition option" where
  "last_named n ts = find (\<lambda>t. name t = n) (rev ts)"

text \<open>
  The extraction of a directive as the specification words it, to compare with
  \<open>tryParseObject\<close>: a strict parse of the whole text; failing that, a parse of the
  substring that runs from the first \<open>{\<close> to the last \<open>}\<close>; failing that, no directive.
  \<open>brace_substring\<close> is that substring: drop everything before the first \<open>{\<close>, then
  everything after the last \<open>}\<close>; nothing is left when there is no \<open>{\<close> or no \<open>}\<close>
  after it.
\<close>

definition brace_substring :: "string \<Rightarrow> string option" where
  "brace_substring s =
     (let from_open = dropWhile (\<lambda>c. c \<noteq> CHR ''{'') s;
          body = rev (dropWhile (\<lambda>c. c \<noteq> CHR ''}'') (rev from_open))
      in if body = [] then None else Some body)"

definition extract_directive :: "platform \<Rightarrow> string \<Rightarrow> jsvalue" where
  "extract_directive P s =
     (case json_parse P s of
        Some v \<Rightarrow> v
      | None \<Rightarrow>
          (case brace_substring s of
             None \<Rightarrow> JUndefined
           | Some sub \<Rightarrow> (case json_parse P sub of Some v \<Rightarrow> v | None \<Rightarrow> JUndefined)))"

text \<open>
  Plain prose: the text is no JSON, and it has no braces in this order or what lies
  between them is no JSON either.
\<close>

definition prose :: "platform \<Rightarrow> string \<Rightarrow> bool" where
  "prose P s =
     (json_parse P s = None
      \<and> (case brace_substring s of None \<Rightarrow> True | Some sub \<Rightarrow> json_parse P sub = None))"

subsection \<open>Sample agents\<close>

text \<open>
  Concrete inputs on which the properties below are exercised.  The world of the
  samples is the number of answers the provider has given; the observer keeps the list
  of the events it was handed.

  \<open>sample_parse\<close> stands for \<open>JSON.parse\<close> in the samples.  It gives the value
  \<open>JSON.parse\<close> gives on the four JSON texts the samples use, and fails on every other
  text; the samples give it no other text that \<open>JSON.parse\<close> accepts.  All sample
  tools return strings, so \<open>JSON.stringify\<close> is never reached.
\<close>

definition calculator_call :: string where
  \<open>calculator_call = ''{"tool":"calculator","args":{"expression":"2+2"}}''\<close>

definition weather_call :: string where
  \<open>weather_call = ''{"tool":"weather","args":{}}''\<close>

definition spanish_handoff :: string where
  \<open>spanish_handoff = ''{"handoff":"Spanish","reason":"detected"}''\<close>

definition result_object :: string where
  \<open>result_object = ''{"result": 42}''\<close>

definition sample_parse :: "string \<Rightarrow> jsvalue option" where
  "sample_parse s =
     (if s = calculator_call then
        Some (JObject [(''tool'', JString ''calculator''),
                       (''args'', JObject [(''expression'', JString ''2+2'')])])
      else if s = weather_call then
        Some (JObject [(''tool'', JString ''weather''), (''args'', JObject [])])
      else if s = spanish_handoff then
        Some (JObject [(''handoff'', JString ''Spanish''), (''reason'', JString ''detected'')])
      else if s = result_object then
        Some (JObject [(''result'', JNumber 42)])
      else None)"

definition sample_platform :: platform where
  "sample_platform =
     \<lparr>json_parse = sample_parse,
      json_stringify = (\<lambda>v. case v of JUndefined \<Rightarrow> None | _ \<Rightarrow> Some ''null'')\<rparr>"

text \<open>A provider that answers from a script, one answer per call, then the empty text.\<close>

definition scripted :: "string list \<Rightarrow> nat openai_client" where
  "scripted answers =
     \<lparr>chat = (\<lambda>req w. (Inr (if w < length answers then answers ! w else []), Suc w))\<rparr>"

definition calculator :: "nat tool_definition" where
  "calculator =
     \<lparr>name = ''calculator'', description = Some ''adds'',
      execute = (\<lambda>args ctx w. (Inr (JString ''4''), w))\<rparr>"

text \<open>A calculator that throws, and one that answers with the directive it was called by.\<close>

definition broken_calculator :: "nat tool_definition" where
  "broken_calculator =
     \<lparr>name = ''calculator'', description = None,
      execute = (\<lambda>args ctx w. (Inl (Thrown ''division by zero''), w))\<rparr>"

definition parrot_calculator :: "nat tool_definition" where
  "parrot_calculator =
     \<lparr>name = ''calculator'', description = None,
      execute = (\<lambda>args ctx w. (Inr (JString calculator_call), w))\<rparr>"

definition search :: "nat tool_definition" where
  "search =
     \<lparr>name = ''search'', description = None,
      execute = (\<lambda>args ctx w. (Inr (JString ''nothing found''), w))\<rparr>"

definition bare_config :: "(nat, nat trace_event list) agent_config" where
  "bare_config =
     \<lparr>agent_name = None, instructions = None, model = None, temperature = None,
      tools = None, inputGuard = None, outputGuard = None, onTrace = None, handoff = None\<rparr>"

definition recorder :: "nat trace_event \<Rightarrow> nat trace_event list \<Rightarrow> nat trace_event list" where
  "recorder ev seen = seen @ [ev]"

definition math_agent :: "(nat, nat trace_event list) agent_config" where
  "math_agent =
     bare_config\<lparr>instructions := Some ''Be brief.'', tools := Some [calculator],
                 onTrace := Some recorder\<rparr>"

definition spanish_result :: run_result where
  "spanish_result = \<lparr>result_content = ''Hola'', structured = JUndefined\<rparr>"

definition router_agent :: "(nat, nat trace_event list) agent_config" where
  "router_agent =
     bare_config\<lparr>agent_name := Some ''Router'', tools := Some [calculator],
                 outputGuard := Some (\<lambda>c w. (Inl (Thrown ''guard''), w)),
                 handoff := Some (\<lambda>target msgs ctx w. (Inr spanish_result, w))\<rparr>"

definition user_says :: "string \<Rightarrow> message" where
  "user_says s = \<lparr>role = User, content = Some s, msg_name = None\<rparr>"

definition ask :: "string \<Rightarrow> nat run_input" where
  "ask s = \<lparr>messages = [user_says s], expect = None, run_context = None, maxToolPasses = None\<rparr>"

definition fresh :: "(nat, nat trace_event list) run_state" where
  "fresh = \<lparr>world = 0, observer = [], calls = []\<rparr>"

definition broken_agent :: "(nat, nat trace_event list) agent_config" where
  "broken_agent = bare_config\<lparr>tools := Some [broken_calculator]\<rparr>"

definition parrot_agent :: "(nat, nat trace_event list) agent_config" where
  "parrot_agent = bare_config\<lparr>tools := Some [parrot_calculator], onTrace := Some recorder\<rparr>"

definition two_plus_two :: jsvalue where
  "two_plus_two = JObject [(''expression'', JString ''2+2'')]"

definition zero_passes :: "nat run_input" where
  "zero_passes = (ask ''2+2?'')\<lparr>maxToolPasses := Some 0\<rparr>"

definition be_brief :: message where
  "be_brief = \<lparr>role = System, content = Some ''Be brief.'', msg_name = None\<rparr>"

text \<open>A JSON object inside prose; what lies between its braces is \<open>result_object\<close>.\<close>

definition embedded_result :: string where
  \<open>embedded_result = ''Here it is: {"result": 42} done''\<close>

text \<open>Half a tool pass, and a script that asks for the calculator every time.\<close>

definition half_pass :: "nat run_input" where
  "half_pass = (ask ''2+2?'')\<lparr>maxToolPasses := Some (1 / 2)\<rparr>"

definition insistent :: "nat openai_client" where
  "insistent = scripted [calculator_call, calculator_call, calculator_call]"




text \<open>An extension that brings one tool and nothing else.\<close>

definition other_calculator :: "(nat, nat trace_event list) config_extension" where
  "other_calculator =
     \<lparr>ext_name = None, ext_instructions = None, ext_model = None, ext_temperature = None,
      ext_tools = Some (Some [broken_calculator]), ext_inputGuard = None,
      ext_outputGuard = None, ext_onTrace = None, ext_handoff = None\<rparr>"

section \<open>Properties\<close>

subsection \<open>Auxiliary facts about one turn and about the loop\<close>

lemma world_emit [simp]: "world (emit tr ev st) = world st"
  by (simp add: emit_def split: option.splits)
lemma calls_emit [simp]: "calls (emit tr ev st) = calls st"
  by (simp add: emit_def split: option.splits)
lemma observer_emit [simp]: "observer (emit tr ev st) = observe tr [ev] (observer st)"
  by (simp add: emit_def observe_def split: option.splits)
lemma observe_observe [simp]: "observe tr evs (observe tr evs' ob) = observe tr (evs' @ evs) ob"
  by (simp add: observe_def split: option.splits)

lemma invoke_eq:
  "f (world st) = (r, w') \<Longrightarrow> invoke c f st = (r, st\<lparr>world := w', calls := calls st @ [c]\<rparr>)"
  by (simp add: invoke_def)

lemma emit_state:
  "emit tr ev st = st\<lparr>observer := observe tr [ev] (observer st)\<rparr>"
  by (simp add: emit_def observe_def split: option.splits)

declare run_loop.simps [simp del]

lemma run_loop_step [simp]:
  "of_int i < bound \<Longrightarrow> run_loop P client cfg ctx i bound history lastContent st =
     (case turn P client cfg ctx history st of
           (Throw e, st') \<Rightarrow> (Threw e, st')
         | (Return r, st') \<Rightarrow> (Returned r, st')
         | (Break c, st') \<Rightarrow> (Finished c, st')
         | (Continue h c, st') \<Rightarrow> run_loop P client cfg ctx (i + 1) bound h c st')"
  by (simp add: run_loop.simps)

lemma run_loop_stop [simp]:
  "\<not> of_int i < bound \<Longrightarrow>
     run_loop P client cfg ctx i bound history lastContent st = (Finished lastContent, st)"
  by (simp add: run_loop.simps)

lemma pass_bound_ge: "1 \<le> pass_bound inp"
  by (simp add: pass_bound_def)

lemma pass_bound_ceiling_ge: "1 \<le> \<lceil>pass_bound inp\<rceil>"
  using pass_bound_ge[of inp] by (simp add: le_ceiling_iff)

lemma find_Some_nonempty: "find p ts = Some t \<Longrightarrow> ts \<noteq> []"
  by (cases ts) auto

lemma maybeExecuteTool_found:
  assumes "dispatch_target P tls text = Some (t, args)"
    and "execute t args ctx (world st) = (res, w2)"
  shows "maybeExecuteTool P text tls ctx tr st =
     (case res of Inl e \<Rightarrow> Inl e | Inr r \<Rightarrow> Inr (result_text P r),
      st\<lparr>world := w2,
       observer := observe tr
         (ToolStart (name t) args # (case res of Inl e \<Rightarrow> [] | Inr r \<Rightarrow> [ToolStop (name t) r]))
         (observer st),
       calls := calls st @ [ToolCall (name t) args ctx]\<rparr>)"
  using assms
  by (cases res; cases st)
     (auto simp: maybeExecuteTool_def dispatch_target_def Let_def invoke_def emit_state
           split: option.splits dest: find_Some_nonempty)

lemma maybeExecuteTool_none:
  assumes "dispatch_target P tls text = None"
  shows "maybeExecuteTool P text tls ctx tr st = (Inr (Some text), st)"
  using assms
  by (auto simp: maybeExecuteTool_def dispatch_target_def split: option.splits)

lemma after_chat_sel [simp]:
  "world (after_chat cfg history text w1 st) = w1"
  "calls (after_chat cfg history text w1 st) = calls st @ [ChatCall (next_request cfg history)]"
  "observer (after_chat cfg history text w1 st) =
     observe (onTrace cfg)
         [LlmRequest (chat_model (next_request cfg history)) (chat_messages (next_request cfg history)),
          LlmResponse text]
         (observer st)"
  by (simp_all add: after_chat_def)

lemma turn_after_chat:
  assumes "chat client (next_request cfg history) (world st) = (Inr text, w1)"
  shows "turn P client cfg ctx history st =
    (let st3 = after_chat cfg history text w1 st; handoffObj = tryParseObject P text
     in if is_handoff handoffObj then
          (let target = get_prop handoffObj ''handoff'';
               st4 = emit (onTrace cfg)
                       (HandoffEvent (agent_name cfg) target (get_prop handoffObj ''reason'')) st3
           in case handoff cfg of
                Some h \<Rightarrow>
                  (case invoke (HandoffCall target history ctx) (h target history ctx) st4 of
                     (Inl e, st5) \<Rightarrow> (Throw e, st5)
                   | (Inr r, st5) \<Rightarrow>
                       (Return \<lparr>result_content = result_content r, structured = structured r\<rparr>,
                        emit (onTrace cfg) (AgentStop (agent_name cfg)) st5))
              | None \<Rightarrow> (Break text, st4))
        else
          (case maybeExecuteTool P text (tools cfg) ctx (onTrace cfg) st3 of
             (Inl e, st4) \<Rightarrow> (Throw e, st4)
           | (Inr toolResult, st4) \<Rightarrow>
               if toolResult \<noteq> Some text then
                 (Continue
                    (history @
                       [\<lparr>role = Assistant, content = Some text, msg_name = None\<rparr>,
                        \<lparr>role = Tool, content = toolResult, msg_name = None\<rparr>])
                    text,
                  st4)
               else (Break text, st4)))"
  using assms
  by (cases st)
     (simp add: turn_def Let_def invoke_def next_request_def chat_request_def after_chat_def emit_state)

lemma turn_tool:
  assumes "chat client (next_request cfg history) (world st) = (Inr text, w1)"
    and "\<not> is_handoff (tryParseObject P text)"
    and "dispatch_target P (tools cfg) text = Some (t, args)"
    and "execute t args ctx w1 = (res, w2)"
  shows "turn P client cfg ctx history st =
     (case res of
        Inl e \<Rightarrow> Throw e
      | Inr r \<Rightarrow>
          if result_text P r \<noteq> Some text
          then Continue (history @
                 [\<lparr>role = Assistant, content = Some text, msg_name = None\<rparr>,
                  \<lparr>role = Tool, content = result_text P r, msg_name = None\<rparr>]) text
          else Break text,
      st\<lparr>world := w2,
       observer := observe (onTrace cfg)
         ([LlmRequest (chat_model (next_request cfg history)) (chat_messages (next_request cfg history)),
           LlmResponse text, ToolStart (name t) args]
          @ (case res of Inl e \<Rightarrow> [] | Inr r \<Rightarrow> [ToolStop (name t) r]))
         (observer st),
       calls := calls st @ [ChatCall (next_request cfg history), ToolCall (name t) args ctx]\<rparr>)"
proof -
  have w: "execute t args ctx (world (after_chat cfg history text w1 st)) = (res, w2)"
    using assms(4) by simp
  show ?thesis
    unfolding turn_after_chat[OF assms(1)] Let_def if_not_P[OF assms(2)]
      maybeExecuteTool_found[OF assms(3) w]
    by (cases res; cases st) (simp_all add: after_chat_def)
qed

lemma turn_plain:
  assumes "chat client (next_request cfg history) (world st) = (Inr text, w1)"
    and "\<not> is_handoff (tryParseObject P text)"
    and "dispatch_target P (tools cfg) text = None"
  shows "turn P client cfg ctx history st = (Break text, after_chat cfg history text w1 st)"
  using assms(2)
  by (simp add: turn_after_chat[OF assms(1)] Let_def maybeExecuteTool_none[OF assms(3)])


lemma chat_histories_append: "chat_histories (xs @ ys) = chat_histories xs @ chat_histories ys"
  by (induction xs rule: chat_histories.induct) simp_all

lemma calls_invoke: "calls (snd (invoke c f st)) = calls st @ [c]"
  by (simp add: invoke_def split: prod.splits)

lemma calls_maybeExecuteTool:
  "chat_histories (calls (snd (maybeExecuteTool P text tls ctx tr st))) = chat_histories (calls st)"
proof (cases "dispatch_target P tls text")
  case None
  then show ?thesis by (simp add: maybeExecuteTool_none)
next
  case (Some p)
  obtain t args where p: "p = (t, args)" by (cases p)
  obtain res w2 where e: "execute t args ctx (world st) = (res, w2)" by (cases "execute t args ctx (world st)")
  show ?thesis
    using Some p by (simp add: maybeExecuteTool_found[OF _ e] chat_histories_append)
qed

lemma calls_maybeExecuteTool_eq:
  "maybeExecuteTool P text tls ctx tr st = (r, st')
     \<Longrightarrow> chat_histories (calls st') = chat_histories (calls st)"
  using calls_maybeExecuteTool[of P "text" tls ctx tr st] by simp

lemma turn_chat_throw:
  assumes "chat client (next_request cfg history) (world st) = (Inl e, w1)"
  shows "turn P client cfg ctx history st =
    (Throw e,
     st\<lparr>world := w1,
        observer := observe (onTrace cfg)
         [LlmRequest (chat_model (next_request cfg history)) (chat_messages (next_request cfg history))]
         (observer st),
        calls := calls st @ [ChatCall (next_request cfg history)]\<rparr>)"
  using assms
  by (cases st)
     (simp add: turn_def Let_def invoke_def next_request_def chat_request_def emit_state)

lemma turn_chat_histories:
  "chat_histories (calls (snd (turn P client cfg ctx history st)))
     = chat_histories (calls st) @ [withToolCallHints history (tools cfg)]"
proof -
  obtain r w1 where c: "chat client (next_request cfg history) (world st) = (r, w1)"
    by (cases "chat client (next_request cfg history) (world st)")
  have m: "chat_messages (next_request cfg history) = withToolCallHints history (tools cfg)"
    by (simp add: next_request_def chat_request_def)
  show ?thesis
  proof (cases r)
    case (Inl e)
    with c show ?thesis by (simp add: turn_chat_throw chat_histories_append m)
  next
    case (Inr resp)
    with c have c': "chat client (next_request cfg history) (world st) = (Inr resp, w1)" by simp
    show ?thesis
      unfolding turn_after_chat[OF c'] Let_def
      by (auto simp: chat_histories_append m invoke_def
          split: option.splits prod.splits sum.splits dest!: calls_maybeExecuteTool_eq)
  qed
qed


lemma turn_continue_extends:
  assumes "turn P client cfg ctx history st = (Continue h c, st')"
  shows "\<exists>a b. h = history @ [\<lparr>role = Assistant, content = Some a, msg_name = None\<rparr>,
                              \<lparr>role = Tool, content = b, msg_name = None\<rparr>]"
  using assms
  by (auto simp: turn_def Let_def split: prod.splits sum.splits option.splits if_splits)

lemma run_loop_chat_histories:
  "\<exists>hs. chat_histories (calls (snd (run_loop P client cfg ctx i bound history lastContent st)))
          = chat_histories (calls st) @ hs
      \<and> int (length hs) \<le> max 0 (\<lceil>bound\<rceil> - i)
      \<and> (\<forall>ms \<in> set hs. \<exists>ext. ms = withToolCallHints (history @ ext) (tools cfg))"
proof (induction P client cfg ctx i bound history lastContent st rule: run_loop.induct)
  case (1 P client cfg ctx i bound history lastContent st)
  show ?case
  proof (cases "of_int i < bound")
    case False
    then show ?thesis by simp
  next
    case True
    obtain r st' where t: "turn P client cfg ctx history st = (r, st')"
      by (cases "turn P client cfg ctx history st")
    have h1: "chat_histories (calls st') = chat_histories (calls st) @ [withToolCallHints history (tools cfg)]"
      using turn_chat_histories[of P client cfg ctx history st] t by simp
    have lt: "i < \<lceil>bound\<rceil>"
      using True by (simp add: less_ceiling_iff)
    have self: "\<exists>ext. withToolCallHints history (tools cfg) = withToolCallHints (history @ ext) (tools cfg)"
      by (rule exI[of _ "[]"]) simp
    show ?thesis
    proof (cases r)
      case (Continue h c)
      obtain a b where h: "h = history @ [\<lparr>role = Assistant, content = Some a, msg_name = None\<rparr>,
                              \<lparr>role = Tool, content = b, msg_name = None\<rparr>]"
        using turn_continue_extends t Continue by blast
      from "1.IH"[OF True t[symmetric] Continue]
      obtain hs where hs: "chat_histories (calls (snd (run_loop P client cfg ctx (i + 1) bound h c st')))
          = chat_histories (calls st') @ hs"
          "int (length hs) \<le> max 0 (\<lceil>bound\<rceil> - (i + 1))"
          "\<forall>ms \<in> set hs. \<exists>ext. ms = withToolCallHints (h @ ext) (tools cfg)"
        by blast
      have "\<forall>ms \<in> set hs. \<exists>ext. ms = withToolCallHints (history @ ext) (tools cfg)"
        using hs(3) unfolding h by (metis append_assoc)
      with hs(1,2) h1 self True lt show ?thesis
        using t Continue
        by (intro exI[of _ "withToolCallHints history (tools cfg) # hs"]) auto
    qed (use True lt t h1 self in \<open>auto intro!: exI[of _ "[withToolCallHints history (tools cfg)]"]\<close>)
  qed
qed

lemma finalize_chat_histories:
  "chat_histories (calls (snd (finalize P cfg inp c st))) = chat_histories (calls st)"
  by (auto simp: finalize_def invoke_def chat_histories_append
      split: option.splits prod.splits sum.splits)

lemma guard_input_chat_histories:
  "chat_histories (calls (snd (guard_input cfg msgs st))) = chat_histories (calls st)"
  by (auto simp: guard_input_def invoke_def chat_histories_append
      split: option.splits prod.splits sum.splits)

lemma run_from_chat_histories:
  "\<exists>hs. chat_histories (calls (snd (run_from P client cfg inp ctx i bound history lastContent st)))
          = chat_histories (calls st) @ hs
      \<and> int (length hs) \<le> max 0 (\<lceil>bound\<rceil> - i)
      \<and> (\<forall>ms \<in> set hs. \<exists>ext. ms = withToolCallHints (history @ ext) (tools cfg))"
proof -
  obtain r st' where l: "run_loop P client cfg ctx i bound history lastContent st = (r, st')"
    by (cases "run_loop P client cfg ctx i bound history lastContent st")
  have "chat_histories (calls (snd (run_from P client cfg inp ctx i bound history lastContent st)))
     = chat_histories (calls st')"
    using l by (cases r) (simp_all add: run_from_def finalize_chat_histories)
  then show ?thesis
    using run_loop_chat_histories[of P client cfg ctx i bound history lastContent st] l by simp
qed

lemma length_filter_is_chat: "length (filter is_chat cs) = length (chat_histories cs)"
  by (induction cs rule: chat_histories.induct) simp_all

subsection \<open>The observer state is write-only\<close>




lemma next_request_onTrace [simp]:
  "next_request (cfg\<lparr>onTrace := tr'\<rparr>) history = next_request cfg history"
  by (simp add: next_request_def chat_request_def)






subsection \<open>Auxiliary facts about the run\<close>

lemma run_from_step:
  assumes "of_int i < bound" and "turn P client cfg ctx history st = (r, st')"
  shows "run_from P client cfg inp ctx i bound history lastContent st =
     (case r of
        Throw e \<Rightarrow> (Inl e, st')
      | Return res \<Rightarrow> (Inr res, st')
      | Break c \<Rightarrow> finalize P cfg inp c st'
      | Continue h c \<Rightarrow> run_from P client cfg inp ctx (i + 1) bound h c st')"
  using assms by (cases r) (simp_all add: run_from_def)


lemma run_guarded:
  assumes "guard_input cfg (messages inp) st = (Inr guarded, st1)"
  shows "run P client cfg inp st =
     run_from P client cfg inp (context_of inp) 0 (pass_bound inp)
       (system_messages cfg @ guarded) []
       (emit (onTrace cfg) (AgentStart (agent_name cfg) (view_of cfg)) st1)"
  using assms by (simp add: run_def context_of_def)

lemma finalize_plain:
  assumes "outputGuard cfg = None" and "expect inp = None"
  shows "finalize P cfg inp c st =
     (Inr \<lparr>result_content = c, structured = JUndefined\<rparr>,
      emit (onTrace cfg) (AgentStop (agent_name cfg)) st)"
  using assms by (simp add: finalize_def)

lemma is_handoff_iff:
  "is_handoff v \<longleftrightarrow> (\<exists>kvs. v = JObject kvs \<and> ''handoff'' \<in> set (map fst kvs))"
  by (cases v) (simp_all add: is_handoff_def)

lemma turn_handoff:
  assumes "chat client (next_request cfg history) (world st) = (Inr text, w1)"
    and "is_handoff (tryParseObject P text)"
    and "handoff cfg = Some h"
    and "h (get_prop (tryParseObject P text) ''handoff'') history ctx w1 = (res, w2)"
  shows "turn P client cfg ctx history st =
     (case res of Inl e \<Rightarrow> Throw e | Inr r \<Rightarrow> Return r,
      st\<lparr>world := w2,
         observer := observe (onTrace cfg)
           ([LlmRequest (chat_model (next_request cfg history)) (chat_messages (next_request cfg history)),
             LlmResponse text,
             HandoffEvent (agent_name cfg) (get_prop (tryParseObject P text) ''handoff'')
               (get_prop (tryParseObject P text) ''reason'')]
            @ (case res of Inl e \<Rightarrow> [] | Inr r \<Rightarrow> [AgentStop (agent_name cfg)]))
           (observer st),
         calls := calls st @
           [ChatCall (next_request cfg history),
            HandoffCall (get_prop (tryParseObject P text) ''handoff'') history ctx]\<rparr>)"
  unfolding turn_after_chat[OF assms(1)] Let_def if_P[OF assms(2)]
  using assms(3,4)
  by (cases res; cases st) (simp_all add: invoke_def emit_state after_chat_def)

lemma finalize_content:
  assumes "outputGuard cfg = None" and "fst (finalize P cfg inp c st) = Inr r"
  shows "result_content r = c"
  using assms
  by (auto simp: finalize_def split: option.splits prod.splits sum.splits)


lemma find_Some_holds: "find p xs = Some x \<Longrightarrow> x \<in> set xs \<and> p x"
  by (induction xs) (auto split: if_splits)

lemma run_chat_calls_ceiling:
  "int (length (filter is_chat (calls (snd (run P client cfg inp st)))))
     \<le> int (length (filter is_chat (calls st))) + \<lceil>pass_bound inp\<rceil>"
proof -
  obtain g st1 where g: "guard_input cfg (messages inp) st = (g, st1)"
    by (cases "guard_input cfg (messages inp) st")
  have c1: "chat_histories (calls st1) = chat_histories (calls st)"
    using guard_input_chat_histories[of cfg "messages inp" st] g by simp
  show ?thesis
  proof (cases g)
    case (Inl e)
    with g c1 show ?thesis
      using pass_bound_ceiling_ge[of inp] by (simp add: run_def length_filter_is_chat)
  next
    case (Inr guarded)
    let ?ctx = "case run_context inp of None \<Rightarrow> JObject [] | Some c \<Rightarrow> c"
    let ?st2 = "emit (onTrace cfg) (AgentStart (agent_name cfg) (view_of cfg)) st1"
    from run_from_chat_histories[of P client cfg inp ?ctx 0 "pass_bound inp"
        "system_messages cfg @ guarded" "[]" ?st2]
    obtain hs where hs:
      "chat_histories (calls (snd (run_from P client cfg inp ?ctx 0 (pass_bound inp)
          (system_messages cfg @ guarded) [] ?st2))) = chat_histories (calls ?st2) @ hs"
      "int (length hs) \<le> max 0 (\<lceil>pass_bound inp\<rceil> - 0)"
      by blast
    have "run P client cfg inp st =
        run_from P client cfg inp ?ctx 0 (pass_bound inp) (system_messages cfg @ guarded) [] ?st2"
      using g Inr by (simp add: run_def Let_def)
    with hs c1 show ?thesis
      using pass_bound_ceiling_ge[of inp] by (simp add: length_filter_is_chat)
  qed
qed

subsection \<open>Facts about the samples\<close>

lemmas sample_defs = broken_agent_def parrot_agent_def two_plus_two_def
  sample_platform_def sample_parse_def calculator_call_def weather_call_def spanish_handoff_def
  result_object_def scripted_def calculator_def broken_calculator_def parrot_calculator_def
  search_def bare_config_def recorder_def math_agent_def router_agent_def user_says_def ask_def
  fresh_def spanish_result_def

lemma sample_not_handoff:
  "\<not> is_handoff (tryParseObject sample_platform calculator_call)"
  by (simp add: is_handoff_def tryParseObject_def sample_defs)

lemma sample_dispatch:
  "dispatch_target sample_platform (Some [t\<lparr>name := ''calculator''\<rparr>]) calculator_call
     = Some (t\<lparr>name := ''calculator''\<rparr>, two_plus_two)"
  by (simp add: dispatch_target_def parseToolCall_def tryParseObject_def sample_defs)

subsection \<open>Auxiliary facts about merging tools\<close>

lemma keyed_update: "keyed m \<Longrightarrow> keyed (AList.update (name t) t m)"
  by (induction m) (auto simp: keyed_def)

lemma keyed_set_all: "keyed m \<Longrightarrow> keyed (set_all ts m)"
  unfolding set_all_def by (induction ts arbitrary: m) (simp_all add: keyed_update)

lemma distinct_set_all: "distinct (map fst m) \<Longrightarrow> distinct (map fst (set_all ts m))"
  unfolding set_all_def by (induction ts arbitrary: m) (simp_all add: distinct_update)

lemma keys_set_all: "fst ` set (set_all ts m) = fst ` set m \<union> name ` set ts"
  unfolding set_all_def by (induction ts arbitrary: m) (auto simp: dom_update)

lemma find_append_first:
  "find p (xs @ ys) = (case find p xs of Some x \<Rightarrow> Some x | None \<Rightarrow> find p ys)"
  by (induction xs) simp_all

lemma map_of_set_all:
  "map_of (set_all ts m) n = (case last_named n ts of Some t \<Rightarrow> Some t | None \<Rightarrow> map_of m n)"
  unfolding set_all_def last_named_def
  by (induction ts arbitrary: m) (auto simp: update_conv' find_append_first split: option.splits)

lemma keyed_names: "keyed m \<Longrightarrow> map name (map snd m) = map fst m"
  by (induction m) (auto simp: keyed_def)

lemma keyed_find: "keyed m \<Longrightarrow> find (\<lambda>t. name t = n) (map snd m) = map_of m n"
  by (induction m) (auto simp: keyed_def)

subsection \<open>Auxiliary facts about strings and the extraction\<close>

lemma indexOf_none: "c \<notin> set xs \<Longrightarrow> indexOf xs c = -1"
  by (induction xs) auto

lemma indexOf_first: "c \<notin> set pre \<Longrightarrow> indexOf (pre @ c # rest) c = int (length pre)"
  by (induction pre) (auto simp: Let_def)

lemma lastIndexOf_none: "c \<notin> set xs \<Longrightarrow> lastIndexOf xs c = -1"
  by (induction xs) (auto simp: Let_def)

lemma lastIndexOf_bounds: "-1 \<le> lastIndexOf xs c \<and> lastIndexOf xs c < int (length xs)"
  by (induction xs) (auto simp: Let_def)

lemma lastIndexOf_last: "c \<notin> set post \<Longrightarrow> lastIndexOf (xs @ c # post) c = int (length xs)"
  by (induction xs) (simp_all add: Let_def lastIndexOf_none)

lemma lastIndexOf_append_none: "c \<notin> set ys \<Longrightarrow> lastIndexOf (xs @ ys) c = lastIndexOf xs c"
  by (induction xs) (simp_all add: Let_def lastIndexOf_none)

lemma slice_middle:
  "slice (pre @ xs @ post) (int (length pre)) (int (length pre) + int (length xs)) = xs"
  by (simp add: slice_def Let_def)

lemma dropWhile_none: "c \<notin> set xs \<Longrightarrow> dropWhile (\<lambda>x. x \<noteq> c) xs = []"
  by (induction xs) auto

lemma dropWhile_first: "c \<notin> set pre \<Longrightarrow> dropWhile (\<lambda>x. x \<noteq> c) (pre @ c # rest) = c # rest"
  by (induction pre) auto

lemma brace_substring_found:
  assumes "CHR ''{'' \<notin> set pre" and "CHR ''}'' \<notin> set post"
  shows "brace_substring (pre @ CHR ''{'' # mid @ CHR ''}'' # post) = Some (CHR ''{'' # mid @ [CHR ''}''])"
proof -
  have "rev (CHR ''{'' # mid @ CHR ''}'' # post) = rev post @ CHR ''}'' # rev (CHR ''{'' # mid)"
    by simp
  then have "dropWhile (\<lambda>c. c \<noteq> CHR ''}'') (rev (CHR ''{'' # mid @ CHR ''}'' # post))
      = CHR ''}'' # rev (CHR ''{'' # mid)"
    using dropWhile_first[of "CHR ''}''" "rev post"] assms(2) by simp
  then show ?thesis
    using dropWhile_first[OF assms(1)] by (simp add: brace_substring_def Let_def)
qed

lemma brace_substring_no_open: "CHR ''{'' \<notin> set s \<Longrightarrow> brace_substring s = None"
  by (simp add: brace_substring_def dropWhile_none)

lemma brace_substring_no_close:
  assumes "CHR ''{'' \<notin> set pre" and "CHR ''}'' \<notin> set rest"
  shows "brace_substring (pre @ CHR ''{'' # rest) = None"
proof -
  have "CHR ''}'' \<notin> set (rev (CHR ''{'' # rest))"
    using assms(2) by simp
  then have "dropWhile (\<lambda>c. c \<noteq> CHR ''}'') (rev (CHR ''{'' # rest)) = []"
    by (rule dropWhile_none)
  then show ?thesis
    using dropWhile_first[OF assms(1)] by (simp add: brace_substring_def Let_def)
qed

lemma tryParseObject_extract: "tryParseObject P s = extract_directive P s"
proof (cases "json_parse P s")
  case (Some v)
  then show ?thesis by (simp add: tryParseObject_def extract_directive_def)
next
  case None
  show ?thesis
  proof (cases "CHR ''{'' \<in> set s")
    case False
    then show ?thesis
      using None
      by (simp add: tryParseObject_def extract_directive_def indexOf_none brace_substring_no_open)
  next
    case True
    then obtain pre rest where s: "s = pre @ CHR ''{'' # rest" and pre: "CHR ''{'' \<notin> set pre"
      using split_list_first by fast
    have start: "indexOf s CHR ''{'' = int (length pre)"
      unfolding s by (rule indexOf_first[OF pre])
    show ?thesis
    proof (cases "CHR ''}'' \<in> set rest")
      case False
      then have "lastIndexOf s CHR ''}'' = lastIndexOf pre CHR ''}''"
        unfolding s using lastIndexOf_append_none[of "CHR ''}''" "CHR ''{'' # rest" pre] by simp
      then have "\<not> lastIndexOf s CHR ''}'' > indexOf s CHR ''{''"
        using lastIndexOf_bounds[of pre "CHR ''}''"] start by simp
      then show ?thesis
        using None brace_substring_no_close[OF pre False]
        by (simp add: tryParseObject_def extract_directive_def Let_def s[symmetric])
    next
      case True
      then obtain mid post where r: "rest = mid @ CHR ''}'' # post" and post: "CHR ''}'' \<notin> set post"
        using split_list_last by fast
      have s': "s = (pre @ CHR ''{'' # mid) @ CHR ''}'' # post"
        by (simp add: s r)
      have stop: "lastIndexOf s CHR ''}'' = int (length pre) + 1 + int (length mid)"
        unfolding s' using lastIndexOf_last[OF post, of "pre @ CHR ''{'' # mid"] by simp
      have "slice (pre @ (CHR ''{'' # mid @ [CHR ''}'']) @ post) (int (length pre))
              (int (length pre) + int (length (CHR ''{'' # mid @ [CHR ''}'']))) = CHR ''{'' # mid @ [CHR ''}'']"
        by (rule slice_middle)
      then have sl: "slice s (indexOf s CHR ''{'') (lastIndexOf s CHR ''}'' + 1) = CHR ''{'' # mid @ [CHR ''}'']"
        unfolding start stop by (simp add: s r add.commute add.left_commute)
      have b: "brace_substring s = Some (CHR ''{'' # mid @ [CHR ''}''])"
        unfolding s r by (rule brace_substring_found[OF pre post])
      have cond: "indexOf s CHR ''{'' \<noteq> -1" "lastIndexOf s CHR ''}'' \<noteq> -1"
        "lastIndexOf s CHR ''}'' > indexOf s CHR ''{''"
        using start stop by simp_all
      show ?thesis
        using None
        by (simp add: tryParseObject_def extract_directive_def Let_def sl b cond)
    qed
  qed
qed

lemma prose_undefined: "prose P s \<Longrightarrow> tryParseObject P s = JUndefined"
  by (auto simp: tryParseObject_extract extract_directive_def prose_def split: option.splits)

subsection \<open>An observer that changes nothing\<close>










subsection \<open>Bounded iteration\<close>

text \<open>
  Claim C1 says that for any \<open>maxToolPasses = k \<ge> 0\<close> a run calls the provider at most
  \<open>max(1, k + 1)\<close> times.  \<open>maxToolPasses\<close> is a number and the loop runs while \<open>i\<close> is
  below \<open>Math.max(1, maxToolPasses + 1)\<close>.  With \<open>k = 1/2\<close> that is \<open>3/2\<close>, both \<open>0\<close> and \<open>1\<close>
  are below it, and a provider that asks for a tool on every turn is called twice.
\<close>

theorem half_pass_two_calls_counterexample:
  "maxToolPasses half_pass = Some (1 / 2)
   \<and> length (filter is_chat (calls (snd (run sample_platform insistent math_agent half_pass fresh)))) = 2
   \<and> \<not> of_nat (length (filter is_chat
                (calls (snd (run sample_platform insistent math_agent half_pass fresh)))))
         \<le> max 1 ((1 / 2 :: rat) + 1)"
proof -
  have "length (filter is_chat
          (calls (snd (run sample_platform insistent math_agent half_pass fresh)))) = 2"
    by code_simp
  then show ?thesis by (simp add: half_pass_def)
qed

text \<open>
  Claim C1, amended.  Whatever the agent, the provider and the input, when
  \<open>maxToolPasses\<close> is an integer \<open>k\<close> (or is omitted, and then \<open>k = 3\<close>), one call of \<open>run\<close>
  calls the provider's \<open>chat\<close> at most \<open>max(1, k + 1)\<close> times, however many tool calls the
  provider asks for.  For any finite \<open>maxToolPasses\<close> the calls are at most
  \<open>Math.max(1, maxToolPasses + 1)\<close> rounded up.  The calls counted are those the run
  makes itself.
\<close>

theorem run_provider_calls_bounded:
  "(maxToolPasses inp = Some (of_int k) \<or> maxToolPasses inp = None \<and> k = 3 \<longrightarrow>
      int (length (filter is_chat (calls (snd (run P client cfg inp st)))))
        \<le> int (length (filter is_chat (calls st))) + max 1 (k + 1))
   \<and> int (length (filter is_chat (calls (snd (run P client cfg inp st)))))
        \<le> int (length (filter is_chat (calls st)))
           + \<lceil>max 1 ((case maxToolPasses inp of None \<Rightarrow> 3 | Some q \<Rightarrow> q) + 1)\<rceil>"
proof -
  have c: "int (length (filter is_chat (calls (snd (run P client cfg inp st)))))
        \<le> int (length (filter is_chat (calls st))) + \<lceil>pass_bound inp\<rceil>"
    by (rule run_chat_calls_ceiling)
  have k: "\<lceil>pass_bound inp\<rceil> = max 1 (k + 1)"
    if "maxToolPasses inp = Some (of_int k) \<or> maxToolPasses inp = None \<and> k = 3"
  proof -
    have "pass_bound inp = of_int (max 1 (k + 1))"
      using that by (auto simp: pass_bound_def max_def)
    then show ?thesis by simp
  qed
  show ?thesis
    using c k by (auto simp: pass_bound_def)
qed

theorem run_provider_calls_bounded_witness:
  "maxToolPasses zero_passes = Some (of_int 0)
   \<and> int (length (filter is_chat
            (calls (snd (run sample_platform insistent math_agent zero_passes fresh)))))
       \<le> int (length (filter is_chat (calls fresh))) + max 1 (0 + 1)
   \<and> length (filter is_chat
        (calls (snd (run sample_platform insistent math_agent zero_passes fresh)))) = 1
   \<and> maxToolPasses (ask ''2+2?'') = None
   \<and> int (length (filter is_chat
            (calls (snd (run sample_platform insistent math_agent (ask ''2+2?'') fresh)))))
       \<le> int (length (filter is_chat (calls fresh))) + max 1 (3 + 1)"
proof -
  have z: "maxToolPasses zero_passes = Some (of_int 0)"
    by (simp add: zero_passes_def)
  have d: "maxToolPasses (ask ''2+2?'') = None"
    by (simp add: ask_def)
  have one: "length (filter is_chat
        (calls (snd (run sample_platform insistent math_agent zero_passes fresh)))) = 1"
    by code_simp
  show ?thesis
    using run_provider_calls_bounded[THEN conjunct1, of zero_passes 0 sample_platform insistent
            math_agent fresh]
          run_provider_calls_bounded[THEN conjunct1, of "ask ''2+2?''" 3 sample_platform insistent
            math_agent fresh]
          z d one
    by simp
qed

subsection \<open>The shape of the history sent to the provider\<close>




subsection \<open>No tool passes\<close>




subsection \<open>Handoff\<close>

text \<open>
  Claim C4.  Let the agent have a \<open>handoff\<close> callback.  On any turn of the loop, if the
  provider's response parses to an object that has a \<open>handoff\<close> key, the callback is
  called with the value under that key, the history of the turn and the context; what the
  callback returns (or throws) is what the run returns (or throws).  Nothing else is
  called after the provider on that turn: no tool, although the object may be a tool
  call as well, no further provider call, no \<open>outputGuard\<close> and no \<open>expect\<close> schema.
  The turn is any turn: \<open>i\<close>, \<open>history\<close> and the state \<open>st\<close> are arbitrary.
\<close>

theorem handoff_returns_callback_result:
  assumes "of_int i < bound"
    and "chat client (next_request cfg history) (world st) = (Inr text, w1)"
    and "tryParseObject P text = JObject kvs"
    and "''handoff'' \<in> set (map fst kvs)"
    and "handoff cfg = Some h"
    and "h (get_prop (JObject kvs) ''handoff'') history ctx w1 = (res, w2)"
  shows "run_from P client cfg inp ctx i bound history lastContent st =
     (res,
      st\<lparr>world := w2,
         observer := observe (onTrace cfg)
           ([LlmRequest (chat_model (next_request cfg history)) (chat_messages (next_request cfg history)),
             LlmResponse text,
             HandoffEvent (agent_name cfg) (get_prop (JObject kvs) ''handoff'')
               (get_prop (JObject kvs) ''reason'')]
            @ (case res of Inl e \<Rightarrow> [] | Inr r \<Rightarrow> [AgentStop (agent_name cfg)]))
           (observer st),
         calls := calls st @
           [ChatCall (next_request cfg history),
            HandoffCall (get_prop (JObject kvs) ''handoff'') history ctx]\<rparr>)"
proof -
  have ih: "is_handoff (tryParseObject P text)"
    using assms(3,4) by (simp add: is_handoff_iff)
  have cb: "h (get_prop (tryParseObject P text) ''handoff'') history ctx w1 = (res, w2)"
    using assms(3,6) by simp
  show ?thesis
    using run_from_step[OF assms(1) turn_handoff[OF assms(2) ih assms(5) cb]] assms(3)
    by (cases res) simp_all
qed

text \<open>
  The router's only answer is a handoff to \<open>Spanish\<close>.  Its output guard throws and it has
  a tool; neither is reached.
\<close>

theorem handoff_returns_callback_result_witness:
  "run sample_platform (scripted [spanish_handoff]) router_agent (ask ''hola'') fresh =
     (Inr spanish_result,
      \<lparr>world = 1, observer = [],
       calls = [ChatCall (next_request router_agent [user_says ''hola'']),
                HandoffCall (JString ''Spanish'') [user_says ''hola''] (JObject [])]\<rparr>)"
proof -
  let ?kvs = "[(''handoff'', JString ''Spanish''), (''reason'', JString ''detected'')]"
  let ?st = "emit (onTrace router_agent) (AgentStart (agent_name router_agent) (view_of router_agent)) fresh"
  let ?h = "system_messages router_agent @ [user_says ''hola'']"
  have g: "guard_input router_agent (messages (ask ''hola'')) fresh = (Inr [user_says ''hola''], fresh)"
    by (simp add: guard_input_def router_agent_def bare_config_def ask_def)
  have h1: "of_int (0::int) < pass_bound (ask ''hola'')"
    by (simp add: pass_bound_def ask_def)
  have h2: "chat (scripted [spanish_handoff]) (next_request router_agent ?h) (world ?st)
              = (Inr spanish_handoff, 1)"
    by (simp add: scripted_def fresh_def)
  have h3: "tryParseObject sample_platform spanish_handoff = JObject ?kvs"
    by (simp add: tryParseObject_def sample_defs)
  have h4: "''handoff'' \<in> set (map fst ?kvs)"
    by simp
  have h5: "handoff router_agent = Some (\<lambda>target msgs ctx w. (Inr spanish_result, w))"
    by (simp add: router_agent_def bare_config_def)
  have h6: "(\<lambda>target msgs ctx w. (Inr spanish_result, w)) (get_prop (JObject ?kvs) ''handoff'') ?h
              (context_of (ask ''hola'')) (1::nat) = (Inr spanish_result, 1)"
    by simp
  show ?thesis
    unfolding run_guarded[OF g]
    using handoff_returns_callback_result[OF h1 h2 h3 h4 h5 h6, where inp = "ask ''hola''" and lastContent = "[]"]
    by (simp add: system_messages_def observe_def context_of_def emit_def
          router_agent_def bare_config_def ask_def fresh_def)
qed

subsection \<open>Merging tool lists\<close>

text \<open>
  Claim C5.  For all tool lists \<open>a\<close> and \<open>b\<close>, each present or absent: \<open>mergeTools a b\<close>
  is \<open>undefined\<close> exactly when both are absent (two empty lists give an empty list);
  otherwise its names are distinct and are the names of \<open>a\<close> and \<open>b\<close> together, so it
  holds one tool per distinct name; the tool it holds for a name \<open>n\<close> is the last tool of
  \<open>b\<close> named \<open>n\<close> if \<open>b\<close> has one, and the last tool of \<open>a\<close> named \<open>n\<close> otherwise.
  \<open>agent.with\<close> merges the tools of the base and of the extension this way.
\<close>

theorem mergeTools_last_write_wins:
  "(mergeTools a b = None \<longleftrightarrow> a = None \<and> b = None)
   \<and> distinct (map name (or_empty (mergeTools a b)))
   \<and> set (map name (or_empty (mergeTools a b))) = name ` (set (or_empty a) \<union> set (or_empty b))
   \<and> length (or_empty (mergeTools a b)) = card (name ` (set (or_empty a) \<union> set (or_empty b)))
   \<and> find (\<lambda>t. name t = n) (or_empty (mergeTools a b))
       = (case last_named n (or_empty b) of
            Some t \<Rightarrow> Some t
          | None \<Rightarrow> last_named n (or_empty a))
   \<and> tools (agent_with baseConfig extension)
       = mergeTools (tools baseConfig) (read_property (ext_tools extension))"
proof -
  let ?m = "set_all (or_empty b) (set_all (or_empty a) [])"
  have k: "keyed ?m"
    by (intro keyed_set_all) (simp add: keyed_def)
  have d: "distinct (map fst ?m)"
    by (intro distinct_set_all) simp
  have s: "set (map fst ?m) = name ` (set (or_empty a) \<union> set (or_empty b))"
    using keys_set_all[of "or_empty b" "set_all (or_empty a) []"] keys_set_all[of "or_empty a" "[]"]
    by auto
  have f: "map_of ?m n = (case last_named n (or_empty b) of
            Some t \<Rightarrow> Some t | None \<Rightarrow> last_named n (or_empty a))"
    by (simp add: map_of_set_all split: option.splits)
  have l: "length ?m = card (name ` (set (or_empty a) \<union> set (or_empty b)))"
    using distinct_card[OF d] s by simp
  show ?thesis
  proof (cases "a = None \<and> b = None")
    case True
    then show ?thesis
      by (simp add: mergeTools_def or_empty_def last_named_def agent_with_def)
  next
    case False
    then have m: "or_empty (mergeTools a b) = map snd ?m"
      by (auto simp: mergeTools_def or_empty_def)
    have n: "map name (or_empty (mergeTools a b)) = map fst ?m"
      unfolding m by (rule keyed_names[OF k])
    show ?thesis
      using False d s l f keyed_find[OF k, of n]
      unfolding n unfolding m
      by (simp add: agent_with_def) (simp add: mergeTools_def)
  qed
qed

theorem mergeTools_last_write_wins_witness:
  "mergeTools (Some [calculator, search]) (Some [broken_calculator])
     = Some [broken_calculator, search]
   \<and> mergeTools (Some []) (Some []) = Some ([] :: nat tool_definition list)
   \<and> mergeTools None None = (None :: nat tool_definition list option)
   \<and> find (\<lambda>t. name t = ''calculator'')
        (or_empty (mergeTools (Some [calculator, search]) (Some [broken_calculator])))
       = Some broken_calculator"
proof -
  have e: "last_named ''calculator'' (or_empty (Some [broken_calculator])) = Some broken_calculator"
    by (simp add: last_named_def or_empty_def broken_calculator_def)
  have m: "mergeTools (Some [calculator, search]) (Some [broken_calculator])
     = Some [broken_calculator, search]"
    by (simp add: mergeTools_def set_all_def or_empty_def calculator_def search_def broken_calculator_def)
  have z: "mergeTools (Some []) (Some []) = Some ([] :: nat tool_definition list)"
    by (simp add: mergeTools_def set_all_def or_empty_def)
  show ?thesis
    using mergeTools_last_write_wins[of "Some [calculator, search]" "Some [broken_calculator]"
            "''calculator''" math_agent other_calculator]
          mergeTools_last_write_wins[of "None :: nat tool_definition list option" None
            "''calculator''" math_agent other_calculator]
          e m z
    by simp
qed

subsection \<open>Best-effort extraction of directives\<close>

text \<open>
  Claim C6.  On every text \<open>tryParseObject\<close> is the extraction the specification
  describes: strict parse, then the parse of the substring from the first \<open>{\<close> to the
  last \<open>}\<close>, then no directive.  Hence, when a provider's response is plain prose, the
  extraction yields \<open>undefined\<close>, the response is no handoff and no tool call, and on any
  turn the loop breaks with that response without an exception, calling nothing after
  the provider, and the run goes on to finalize it; with no \<open>outputGuard\<close> and no \<open>expect\<close>
  schema the run returns the response as its content.
\<close>

theorem directive_extraction_is_best_effort:
  "tryParseObject P s = extract_directive P s
   \<and> (prose P s \<longrightarrow>
        tryParseObject P s = JUndefined
      \<and> \<not> is_handoff (tryParseObject P s)
      \<and> parseToolCall P s = None
      \<and> (of_int i < bound \<and> chat client (next_request cfg history) (world st) = (Inr s, w1) \<longrightarrow>
           turn P client cfg ctx history st = (Break s, after_chat cfg history s w1 st)
         \<and> run_from P client cfg inp ctx i bound history lastContent st
             = finalize P cfg inp s (after_chat cfg history s w1 st)
         \<and> (outputGuard cfg = None \<and> expect inp = None \<longrightarrow>
              fst (run_from P client cfg inp ctx i bound history lastContent st)
                = Inr \<lparr>result_content = s, structured = JUndefined\<rparr>)))"
proof (intro conjI impI)
  show "tryParseObject P s = extract_directive P s"
    by (rule tryParseObject_extract)
next
  assume p: "prose P s"
  show u: "tryParseObject P s = JUndefined"
    by (rule prose_undefined[OF p])
  show h: "\<not> is_handoff (tryParseObject P s)"
    by (simp add: u is_handoff_def)
  show t: "parseToolCall P s = None"
    by (simp add: parseToolCall_def u)
  assume "of_int i < bound \<and> chat client (next_request cfg history) (world st) = (Inr s, w1)"
  then have i: "of_int i < bound" and c: "chat client (next_request cfg history) (world st) = (Inr s, w1)"
    by simp_all
  have d: "dispatch_target P (tools cfg) s = None"
    by (simp add: dispatch_target_def t split: option.splits)
  show b: "turn P client cfg ctx history st = (Break s, after_chat cfg history s w1 st)"
    by (rule turn_plain[OF c h d])
  show r: "run_from P client cfg inp ctx i bound history lastContent st
             = finalize P cfg inp s (after_chat cfg history s w1 st)"
    using run_from_step[OF i b] by simp
  assume "outputGuard cfg = None \<and> expect inp = None"
  then show "fst (run_from P client cfg inp ctx i bound history lastContent st)
                = Inr \<lparr>result_content = s, structured = JUndefined\<rparr>"
    by (simp add: r finalize_plain)
qed

theorem directive_extraction_is_best_effort_witness:
  "prose sample_platform ''The sum is 4.''
   \<and> prose sample_platform ''Use {curly} braces.''
   \<and> run sample_platform (scripted [''The sum is 4.'', ''unused'']) math_agent (ask ''2+2?'') fresh =
     (Inr \<lparr>result_content = ''The sum is 4.'', structured = JUndefined\<rparr>,
      \<lparr>world = 1,
       observer =
         [AgentStart None (view_of math_agent),
          LlmRequest ''gpt-4o-mini'' [hint_message [calculator], be_brief, user_says ''2+2?''],
          LlmResponse ''The sum is 4.'',
          AgentStop None],
       calls = [ChatCall (next_request math_agent [be_brief, user_says ''2+2?''])]\<rparr>)
   \<and> tryParseObject sample_platform embedded_result = JObject [(''result'', JNumber 42)]"
proof -
  let ?st = "emit (onTrace math_agent) (AgentStart (agent_name math_agent) (view_of math_agent)) fresh"
  let ?h = "system_messages math_agent @ [user_says ''2+2?'']"
  have p1: "prose sample_platform ''The sum is 4.''"
    by (simp add: prose_def brace_substring_def sample_defs)
  have p2: "prose sample_platform ''Use {curly} braces.''"
    by (simp add: prose_def brace_substring_def sample_defs)
  have g: "guard_input math_agent (messages (ask ''2+2?'')) fresh = (Inr [user_says ''2+2?''], fresh)"
    by (simp add: guard_input_def math_agent_def bare_config_def ask_def)
  have h1: "of_int (0::int) < pass_bound (ask ''2+2?'')"
    by (simp add: pass_bound_def ask_def)
  have h2: "chat (scripted [''The sum is 4.'', ''unused'']) (next_request math_agent ?h) (world ?st)
              = (Inr ''The sum is 4.'', 1)"
    by (simp add: scripted_def fresh_def)
  have f: "outputGuard math_agent = None" "expect (ask ''2+2?'') = None"
    by (simp_all add: math_agent_def bare_config_def ask_def)
  have r: "run_from sample_platform (scripted [''The sum is 4.'', ''unused'']) math_agent (ask ''2+2?'')
             (context_of (ask ''2+2?'')) 0 (pass_bound (ask ''2+2?'')) ?h [] ?st
           = finalize sample_platform math_agent (ask ''2+2?'') ''The sum is 4.''
               (after_chat math_agent ?h ''The sum is 4.'' 1 ?st)"
    using directive_extraction_is_best_effort[where P = sample_platform and s = "''The sum is 4.''"
            and i = 0 and bound = "pass_bound (ask ''2+2?'')"
            and client = "scripted [''The sum is 4.'', ''unused'']" and cfg = math_agent
            and history = ?h and st = ?st and ?w1.0 = 1] p1 h1 h2
    by blast
  have e: "extract_directive sample_platform embedded_result = JObject [(''result'', JNumber 42)]"
    by (simp add: extract_directive_def brace_substring_def embedded_result_def sample_defs)
  have t: "tryParseObject sample_platform embedded_result = JObject [(''result'', JNumber 42)]"
    using directive_extraction_is_best_effort[THEN conjunct1, of sample_platform embedded_result] e
    by simp
  have "run sample_platform (scripted [''The sum is 4.'', ''unused'']) math_agent (ask ''2+2?'') fresh =
     (Inr \<lparr>result_content = ''The sum is 4.'', structured = JUndefined\<rparr>,
      \<lparr>world = 1,
       observer =
         [AgentStart None (view_of math_agent),
          LlmRequest ''gpt-4o-mini'' [hint_message [calculator], be_brief, user_says ''2+2?''],
          LlmResponse ''The sum is 4.'',
          AgentStop None],
       calls = [ChatCall (next_request math_agent [be_brief, user_says ''2+2?''])]\<rparr>)"
    unfolding run_guarded[OF g] r finalize_plain[OF f]
    by (simp add: system_messages_def observe_def context_of_def emit_def after_chat_def
          next_request_def chat_request_def withToolCallHints_def recorder_def be_brief_def
          math_agent_def bare_config_def ask_def fresh_def calculator_def)
  with p1 p2 t show ?thesis by simp
qed

subsection \<open>A tool that throws\<close>

text \<open>
  Claim C7.  On any turn, if the response is no handoff and is a tool call that is
  dispatched to a configured tool, and that tool's \<open>execute\<close> throws \<open>e\<close>, then
  \<open>maybeExecuteTool\<close> throws \<open>e\<close> and so does the run, with \<open>e\<close> unchanged: the run has
  no result, and after the tool nothing more is called (no \<open>tool:stop\<close>, no
  \<open>agent:stop\<close>, no guard).
\<close>

theorem tool_exception_aborts_run:
  assumes "of_int i < bound"
    and "chat client (next_request cfg history) (world st) = (Inr text, w1)"
    and "\<not> is_handoff (tryParseObject P text)"
    and "dispatch_target P (tools cfg) text = Some (t, args)"
    and "execute t args ctx w1 = (Inl e, w2)"
  shows "fst (maybeExecuteTool P text (tools cfg) ctx (onTrace cfg) (after_chat cfg history text w1 st)) = Inl e
   \<and> run_from P client cfg inp ctx i bound history lastContent st =
     (Inl e,
      st\<lparr>world := w2,
         observer := observe (onTrace cfg)
           [LlmRequest (chat_model (next_request cfg history)) (chat_messages (next_request cfg history)),
            LlmResponse text, ToolStart (name t) args]
           (observer st),
         calls := calls st @ [ChatCall (next_request cfg history), ToolCall (name t) args ctx]\<rparr>)"
proof -
  have w: "execute t args ctx (world (after_chat cfg history text w1 st)) = (Inl e, w2)"
    using assms(5) by simp
  show ?thesis
    using run_from_step[OF assms(1) turn_tool[OF assms(2,3,4,5)]]
    by (simp add: maybeExecuteTool_found[OF assms(4) w])
qed

theorem tool_exception_aborts_run_witness:
  "run sample_platform (scripted [calculator_call, ''unused'']) broken_agent (ask ''2+2?'') fresh =
     (Inl (Thrown ''division by zero''),
      \<lparr>world = 1, observer = [],
       calls = [ChatCall (next_request broken_agent [user_says ''2+2?'']),
                ToolCall ''calculator'' two_plus_two (JObject [])]\<rparr>)"
proof -
  let ?st = "emit (onTrace broken_agent) (AgentStart (agent_name broken_agent) (view_of broken_agent)) fresh"
  let ?h = "system_messages broken_agent @ [user_says ''2+2?'']"
  have g: "guard_input broken_agent (messages (ask ''2+2?'')) fresh = (Inr [user_says ''2+2?''], fresh)"
    by (simp add: guard_input_def broken_agent_def bare_config_def ask_def)
  have h1: "of_int (0::int) < pass_bound (ask ''2+2?'')"
    by (simp add: pass_bound_def ask_def)
  have h2: "chat (scripted [calculator_call, ''unused'']) (next_request broken_agent ?h) (world ?st)
              = (Inr calculator_call, 1)"
    by (simp add: scripted_def fresh_def)
  have h4: "dispatch_target sample_platform (tools broken_agent) calculator_call
              = Some (broken_calculator, two_plus_two)"
    using sample_dispatch[of broken_calculator]
    by (simp add: broken_agent_def bare_config_def broken_calculator_def)
  have h5: "execute broken_calculator two_plus_two (context_of (ask ''2+2?'')) 1
              = (Inl (Thrown ''division by zero''), 1)"
    by (simp add: broken_calculator_def)
  show ?thesis
    unfolding run_guarded[OF g]
    using tool_exception_aborts_run[OF h1 h2 sample_not_handoff h4 h5,
        where inp = "ask ''2+2?''" and lastContent = "[]"]
    by (simp add: system_messages_def observe_def context_of_def emit_def
          broken_agent_def bare_config_def ask_def fresh_def broken_calculator_def)
qed

subsection \<open>Pass-through of the dispatcher\<close>

text \<open>
  Claim C8.  \<open>maybeExecuteTool\<close> returns its content unchanged, calls nothing and emits
  nothing, whenever the tool list is absent or empty, or the content holds no tool-call
  directive, or no configured tool has the name the directive asks for.
\<close>

theorem maybeExecuteTool_passes_content_through:
  assumes "tls = None \<or> tls = Some [] \<or> parseToolCall P text = None
           \<or> (\<forall>t \<in> set (or_empty tls). JString (name t) \<noteq> get_prop (tryParseObject P text) ''tool'')"
  shows "maybeExecuteTool P text tls ctx tr st = (Inr (Some text), st)"
proof -
  have "dispatch_target P tls text = None"
    using assms
    by (auto simp: dispatch_target_def or_empty_def parseToolCall_def Let_def
             split: option.splits if_splits dest: find_Some_holds)
  then show ?thesis by (rule maybeExecuteTool_none)
qed

theorem maybeExecuteTool_passes_content_through_witness:
  "maybeExecuteTool sample_platform weather_call (Some [calculator, search]) (JObject [])
       (Some recorder) fresh = (Inr (Some weather_call), fresh)
   \<and> maybeExecuteTool sample_platform ''The sum is 4.'' (Some [calculator, search]) (JObject [])
       (Some recorder) fresh = (Inr (Some ''The sum is 4.''), fresh)
   \<and> maybeExecuteTool sample_platform calculator_call (Some []) (JObject [])
       (Some recorder) fresh = (Inr (Some calculator_call), fresh)
   \<and> maybeExecuteTool sample_platform calculator_call None (JObject [])
       (Some recorder) fresh = (Inr (Some calculator_call), fresh)"
proof -
  have unknown: "\<forall>t \<in> set (or_empty (Some [calculator, search])).
           JString (name t) \<noteq> get_prop (tryParseObject sample_platform weather_call) ''tool''"
    by (simp add: or_empty_def tryParseObject_def sample_defs)
  have prose: "parseToolCall sample_platform ''The sum is 4.'' = None"
    by (simp add: parseToolCall_def tryParseObject_def sample_defs)
  show ?thesis
    using maybeExecuteTool_passes_content_through[of "Some [calculator, search]"
            sample_platform weather_call "JObject []" "Some recorder" fresh]
          maybeExecuteTool_passes_content_through[of "Some [calculator, search]"
            sample_platform "''The sum is 4.''" "JObject []" "Some recorder" fresh]
          maybeExecuteTool_passes_content_through[of "Some []"
            sample_platform calculator_call "JObject []" "Some recorder" fresh]
          maybeExecuteTool_passes_content_through[of None
            sample_platform calculator_call "JObject []" "Some recorder" fresh]
          unknown prose
    by blast
qed

subsection \<open>Tracing and interference\<close>




subsection \<open>A tool result equal to the response\<close>

text \<open>
  Claim C10.  On any turn, if the response is dispatched to a tool and the tool returns
  a string equal to the response text, the turn ends in \<open>break\<close>: the history gets no
  assistant and no tool message, no further provider call is made, and the run goes on
  to finalize that text, although the tool was called and \<open>tool:start\<close> and \<open>tool:stop\<close>
  were emitted.  Finalizing applies \<open>outputGuard\<close> and \<open>expect\<close> where they are
  configured; with neither, the run returns that text as its content.
\<close>

theorem tool_result_equal_to_response_is_final:
  assumes "of_int i < bound"
    and "chat client (next_request cfg history) (world st) = (Inr text, w1)"
    and "\<not> is_handoff (tryParseObject P text)"
    and "dispatch_target P (tools cfg) text = Some (t, args)"
    and "execute t args ctx w1 = (Inr (JString text), w2)"
  shows "turn P client cfg ctx history st =
     (Break text,
      st\<lparr>world := w2,
         observer := observe (onTrace cfg)
           [LlmRequest (chat_model (next_request cfg history)) (chat_messages (next_request cfg history)),
            LlmResponse text, ToolStart (name t) args, ToolStop (name t) (JString text)]
           (observer st),
         calls := calls st @ [ChatCall (next_request cfg history), ToolCall (name t) args ctx]\<rparr>)
   \<and> run_from P client cfg inp ctx i bound history lastContent st =
     finalize P cfg inp text
       (st\<lparr>world := w2,
          observer := observe (onTrace cfg)
            [LlmRequest (chat_model (next_request cfg history)) (chat_messages (next_request cfg history)),
             LlmResponse text, ToolStart (name t) args, ToolStop (name t) (JString text)]
            (observer st),
          calls := calls st @ [ChatCall (next_request cfg history), ToolCall (name t) args ctx]\<rparr>)
   \<and> (outputGuard cfg = None \<and> expect inp = None \<longrightarrow>
        fst (run_from P client cfg inp ctx i bound history lastContent st)
          = Inr \<lparr>result_content = text, structured = JUndefined\<rparr>)"
  using run_from_step[OF assms(1) turn_tool[OF assms(2,3,4,5)]] turn_tool[OF assms(2,3,4,5)]
  by (simp add: result_text_def finalize_plain)

theorem tool_result_equal_to_response_is_final_witness:
  "run sample_platform (scripted [calculator_call, ''unused'']) parrot_agent (ask ''2+2?'') fresh =
     (Inr \<lparr>result_content = calculator_call, structured = JUndefined\<rparr>,
      \<lparr>world = 1,
       observer =
         [AgentStart None (view_of parrot_agent),
          LlmRequest ''gpt-4o-mini'' [hint_message [parrot_calculator], user_says ''2+2?''],
          LlmResponse calculator_call,
          ToolStart ''calculator'' two_plus_two,
          ToolStop ''calculator'' (JString calculator_call),
          AgentStop None],
       calls = [ChatCall (next_request parrot_agent [user_says ''2+2?'']),
                ToolCall ''calculator'' two_plus_two (JObject [])]\<rparr>)"
proof -
  let ?st = "emit (onTrace parrot_agent) (AgentStart (agent_name parrot_agent) (view_of parrot_agent)) fresh"
  let ?h = "system_messages parrot_agent @ [user_says ''2+2?'']"
  have g: "guard_input parrot_agent (messages (ask ''2+2?'')) fresh = (Inr [user_says ''2+2?''], fresh)"
    by (simp add: guard_input_def parrot_agent_def bare_config_def ask_def)
  have h1: "of_int (0::int) < pass_bound (ask ''2+2?'')"
    by (simp add: pass_bound_def ask_def)
  have h2: "chat (scripted [calculator_call, ''unused'']) (next_request parrot_agent ?h) (world ?st)
              = (Inr calculator_call, 1)"
    by (simp add: scripted_def fresh_def)
  have h4: "dispatch_target sample_platform (tools parrot_agent) calculator_call
              = Some (parrot_calculator, two_plus_two)"
    using sample_dispatch[of parrot_calculator]
    by (simp add: parrot_agent_def bare_config_def parrot_calculator_def)
  have h5: "execute parrot_calculator two_plus_two (context_of (ask ''2+2?'')) 1
              = (Inr (JString calculator_call), 1)"
    by (simp add: parrot_calculator_def)
  have f: "outputGuard parrot_agent = None" "expect (ask ''2+2?'') = None"
    by (simp_all add: parrot_agent_def bare_config_def ask_def)
  note r = tool_result_equal_to_response_is_final[OF h1 h2 sample_not_handoff h4 h5,
        where inp = "ask ''2+2?''" and lastContent = "[]", THEN conjunct2, THEN conjunct1]
  show ?thesis
    unfolding run_guarded[OF g] r finalize_plain[OF f]
    by (simp add: system_messages_def observe_def context_of_def emit_def
          next_request_def chat_request_def withToolCallHints_def recorder_def
          parrot_agent_def bare_config_def ask_def fresh_def parrot_calculator_def)
qed

end
